theory Spec2Isabelle
  imports Complex_Main
begin

section \<open>Monte Carlo polygon area: the geometry kernel (reqB2.c)\<close>

text \<open>
  The coordinates of a \<open>Point\<close> are C doubles; a \<open>Point\<close> here holds their real values.
  On finite doubles the comparisons \<open><\<close>, \<open><=\<close>, \<open>==\<close> and the selections \<open>fmax\<close>,
  \<open>fmin\<close> agree with the order of the reals, which is all that \<open>onSegment\<close>,
  \<open>doIntersect\<close> and the control flow of \<open>isInsidePolygon\<close> depend on.

  The arithmetic of \<open>orientation\<close> is modelled twice.  \<open>orientation\<close> below evaluates
  \<open>val\<close> in exact arithmetic; \<open>orientation64\<close>, further down, evaluates the same lines
  in IEEE 754 binary64, rounding each of the seven operations to nearest, ties to even.
  The two agree whenever no operation rounds (\<open>orientation64_exact\<close>).  What is proved of
  \<open>doIntersect\<close> and \<open>isInsidePolygon\<close> uses no arithmetic law of \<open>orientation\<close>: it is
  only unfolded on inputs where every operation is exact in binary64 (small dyadic
  numbers).  The laws of \<open>orientation\<close> itself are stated of \<open>orientation64\<close>.

  The C \<open>int\<close>s that count vertices, edges and crossings (\<open>n\<close>, \<open>i\<close>, \<open>next\<close>,
  \<open>count\<close>) are never negative and stay below \<open>MAX_POINTS\<close>; they are naturals here.
\<close>

record Point =
  x :: real
  y :: real

text \<open>
  \<^verbatim>\<open>double val = (q.y - p.y) * (r.x - q.x) - (q.x - p.x) * (r.y - q.y);
  if (val == 0) return 0;
  return (val > 0) ? 1 : 2;\<close>
  The result is the C \<open>int\<close>: 0 colinear, 1 clockwise, 2 counterclockwise.  Here \<open>val\<close>
  is evaluated exactly; \<open>orientation64\<close> below rounds as the doubles do.
\<close>

definition orientation :: "Point \<Rightarrow> Point \<Rightarrow> Point \<Rightarrow> int" where
  "orientation p q r =
     (let val = (y q - y p) * (x r - x q) - (x q - x p) * (y r - y q)
      in if val = 0 then 0 else if val > 0 then 1 else 2)"

text \<open>\<open>fmax\<close> and \<open>fmin\<close> of \<open>math.h\<close>, on finite arguments.\<close>

definition fmax :: "real \<Rightarrow> real \<Rightarrow> real" where
  "fmax a b = (if a < b then b else a)"

definition fmin :: "real \<Rightarrow> real \<Rightarrow> real" where
  "fmin a b = (if b < a then b else a)"

definition onSegment :: "Point \<Rightarrow> Point \<Rightarrow> Point \<Rightarrow> bool" where
  "onSegment p q r =
     (if x q \<le> fmax (x p) (x r) \<and> x q \<ge> fmin (x p) (x r) \<and>
         y q \<le> fmax (y p) (y r) \<and> y q \<ge> fmin (y p) (y r)
      then True
      else False)"

definition doIntersect :: "Point \<Rightarrow> Point \<Rightarrow> Point \<Rightarrow> Point \<Rightarrow> bool" where
  "doIntersect p1 q1 p2 q2 =
     (let o1 = orientation p1 q1 p2;
          o2 = orientation p1 q1 q2;
          o3 = orientation p2 q2 p1;
          o4 = orientation p2 q2 q1
      in if o1 \<noteq> o2 \<and> o3 \<noteq> o4 then True
         else if o1 = 0 \<and> onSegment p1 p2 q1 then True
         else if o2 = 0 \<and> onSegment p1 q2 q1 then True
         else if o3 = 0 \<and> onSegment p2 p1 q2 then True
         else if o4 = 0 \<and> onSegment p2 q1 q2 then True
         else False)"

text \<open>
  The \<open>do ... while (i != 0)\<close> loop of \<open>isInsidePolygon\<close>, entered at \<open>i\<close> with
  \<open>count\<close> crossings so far.  The result \<open>count & 1\<close>, converted to \<open>bool\<close>, is the
  parity of \<open>count\<close>.  The loop is entered only when \<open>n \<ge> 3\<close>; the test \<open>0 < n\<close>
  beside \<open>next \<noteq> 0\<close> is there for the recursion to be total in HOL, where
  \<open>k mod 0 = k\<close>.
\<close>

function isInsidePolygon_loop ::
  "Point list \<Rightarrow> nat \<Rightarrow> Point \<Rightarrow> Point \<Rightarrow> nat \<Rightarrow> nat \<Rightarrow> bool" where
  "isInsidePolygon_loop polygon n p extreme count i =
     (let next = (i + 1) mod n in
      if doIntersect (polygon ! i) (polygon ! next) p extreme then
        if orientation (polygon ! i) p (polygon ! next) = 0
        then onSegment (polygon ! i) p (polygon ! next)
        else if next \<noteq> 0 \<and> 0 < n
          then isInsidePolygon_loop polygon n p extreme (count + 1) next
          else odd (count + 1)
      else if next \<noteq> 0 \<and> 0 < n
        then isInsidePolygon_loop polygon n p extreme count next
        else odd count)"
  by pat_completeness auto
termination
proof (relation "measure (\<lambda>(polygon, n, p, extreme, count, i). n - i mod n)")
  show "wf (measure (\<lambda>(polygon, n, p, extreme, count, i). n - i mod n))"
    by simp
next
  fix polygon :: "Point list" and n :: nat and p extreme :: Point and count i nxt :: nat
  assume nx: "nxt = (i + 1) mod n" and go: "nxt \<noteq> 0 \<and> 0 < n"
  from go have "i mod n < n"
    by simp
  moreover from nx go have "Suc (i mod n) \<noteq> n" "nxt = Suc (i mod n)"
    by (auto simp: mod_Suc split: if_splits)
  ultimately have step: "nxt mod n = Suc (i mod n)" "Suc (i mod n) < n"
    by auto
  then show "((polygon, n, p, extreme, count + 1, nxt), (polygon, n, p, extreme, count, i))
      \<in> measure (\<lambda>(polygon, n, p, extreme, count, i). n - i mod n)"
    by simp
  from step
  show "((polygon, n, p, extreme, count, nxt), (polygon, n, p, extreme, count, i))
      \<in> measure (\<lambda>(polygon, n, p, extreme, count, i). n - i mod n)"
    by simp
qed

text \<open>
  \<^verbatim>\<open>if (n < 3) return false;
  Point extreme = {2.5, p.y};
  int count = 0, i = 0;
  do { ... } while (i != 0);
  return count & 1;\<close>
\<close>

definition isInsidePolygon :: "Point list \<Rightarrow> nat \<Rightarrow> Point \<Rightarrow> bool" where
  "isInsidePolygon polygon n p =
     (if n < 3 then False
      else isInsidePolygon_loop polygon n p \<lparr>x = 5 / 2, y = y p\<rparr> 0 0)"


section \<open>orientation in binary64 arithmetic\<close>

text \<open>
  A double is a finite value, an infinity or a NaN.  The finite values are the reals
  \<open>m * 2^e\<close> with \<open>|m| < 2^53\<close> and \<open>-1074 \<le> e \<le> 971\<close>.  The two zeros are not told
  apart: no operation of \<open>orientation\<close> distinguishes them.  The program is taken to
  evaluate each operation in double precision, separately (no wider intermediate
  format, no fused multiply-add), in the default rounding mode.
\<close>

datatype double = Finite real | PosInf | NegInf | NaN

text \<open>
  Rounding to an integer, to nearest, ties to even: the rounding of a significand.
\<close>

definition round_even :: "real \<Rightarrow> int" where
  "round_even w =
     (let f = \<lfloor>w\<rfloor>; r = w - of_int f
      in if r < 1 / 2 then f else if 1 / 2 < r then f + 1
         else if even f then f else f + 1)"

text \<open>
  The exponent of the unit in the last place for a value \<open>v\<close>: the least \<open>e\<close> from
  \<open>-1074\<close> (the subnormals) up to 971 (the largest binade) with \<open>|v| < 2^(e + 53)\<close>, so
  that \<open>v / 2^e\<close> has at most 53 bits before the binary point.
\<close>

function binade :: "int \<Rightarrow> real \<Rightarrow> int" where
  "binade e v = (if e < 971 \<and> 2 powi (e + 53) \<le> \<bar>v\<bar> then binade (e + 1) v else e)"
  by pat_completeness auto
termination
  by (relation "measure (\<lambda>(e, v). nat (971 - e))") auto

declare binade.simps [simp del]

text \<open>
  \<open>rn64 v\<close> is the double that an operation with exact result \<open>v\<close> delivers: the
  significand \<open>v / 2^e\<close> is rounded to an integer, and a result that reaches \<open>2^1024\<close> in
  magnitude overflows to an infinity.
\<close>

definition rn64 :: "real \<Rightarrow> double" where
  "rn64 v =
     (let e = binade (- 1074) v;
          d = of_int (round_even (v / 2 powi e)) * 2 powi e
      in if 2 powi 1024 \<le> d then PosInf
         else if d \<le> - (2 powi 1024) then NegInf
         else Finite d)"

text \<open>The operators \<open>-\<close> and \<open>*\<close> on doubles, and the tests \<open>val == 0\<close> and \<open>val > 0\<close>.\<close>

fun double_sub :: "double \<Rightarrow> double \<Rightarrow> double" where
  "double_sub (Finite a) (Finite b) = rn64 (a - b)"
| "double_sub NaN _ = NaN"
| "double_sub _ NaN = NaN"
| "double_sub PosInf PosInf = NaN"
| "double_sub NegInf NegInf = NaN"
| "double_sub PosInf _ = PosInf"
| "double_sub NegInf _ = NegInf"
| "double_sub (Finite a) PosInf = NegInf"
| "double_sub (Finite a) NegInf = PosInf"

fun double_mul :: "double \<Rightarrow> double \<Rightarrow> double" where
  "double_mul (Finite a) (Finite b) = rn64 (a * b)"
| "double_mul NaN _ = NaN"
| "double_mul _ NaN = NaN"
| "double_mul PosInf (Finite b) = (if b = 0 then NaN else if 0 < b then PosInf else NegInf)"
| "double_mul NegInf (Finite b) = (if b = 0 then NaN else if 0 < b then NegInf else PosInf)"
| "double_mul (Finite a) PosInf = (if a = 0 then NaN else if 0 < a then PosInf else NegInf)"
| "double_mul (Finite a) NegInf = (if a = 0 then NaN else if 0 < a then NegInf else PosInf)"
| "double_mul PosInf PosInf = PosInf"
| "double_mul NegInf NegInf = PosInf"
| "double_mul PosInf NegInf = NegInf"
| "double_mul NegInf PosInf = NegInf"

fun double_eq_zero :: "double \<Rightarrow> bool" where
  "double_eq_zero (Finite v) = (v = 0)"
| "double_eq_zero _ = False"

fun double_gt_zero :: "double \<Rightarrow> bool" where
  "double_gt_zero (Finite v) = (0 < v)"
| "double_gt_zero PosInf = True"
| "double_gt_zero _ = False"

text \<open>
  Lines 37 to 40 of \<open>orientation\<close> in binary64: the four differences, the two products
  and the final difference are each rounded once.
\<close>

definition orientation64 :: "Point \<Rightarrow> Point \<Rightarrow> Point \<Rightarrow> int" where
  "orientation64 p q r =
     (let val = double_sub
                  (double_mul (double_sub (Finite (y q)) (Finite (y p)))
                              (double_sub (Finite (x r)) (Finite (x q))))
                  (double_mul (double_sub (Finite (x q)) (Finite (x p)))
                              (double_sub (Finite (y r)) (Finite (y q))))
      in if double_eq_zero val then 0 else if double_gt_zero val then 1 else 2)"

section \<open>The sampling engine: shared data, worker threads, progress thread\<close>

text \<open>
  \<open>SharedData\<close> without its mutex.  Every access of \<open>points_checked\<close> and
  \<open>points_inside\<close> by a thread happens with the mutex held, and \<open>main\<close> reads them only
  after the joins, so a run of the threads is an interleaving of whole critical sections:
  each is one atomic step below.  The counters are C \<open>int\<close>s; they are unbounded
  integers here (the program has no run in which they wrap without undefined behaviour).
\<close>

record SharedData =
  polygon :: "Point list"
  polygon_size :: nat
  total_points :: int
  points_inside :: int
  points_checked :: int

text \<open>
  \<^verbatim>\<open>Point p = {(double)rand() / RAND_MAX * 2, (double)rand() / RAND_MAX * 2};\<close>
  \<open>r1\<close> and \<open>r2\<close> are the two results of \<open>rand()\<close>; \<open>RAND_MAX\<close> is the constant of
  \<open>stdlib.h\<close>, a parameter here.
\<close>

definition random_point :: "int \<Rightarrow> int \<Rightarrow> int \<Rightarrow> Point" where
  "random_point RAND_MAX r1 r2 =
     \<lparr>x = real_of_int r1 / real_of_int RAND_MAX * 2,
      y = real_of_int r2 / real_of_int RAND_MAX * 2\<rparr>"

text \<open>
  The body of the worker's loop between \<open>pthread_mutex_lock\<close> and
  \<open>pthread_mutex_unlock\<close>:
  \<^verbatim>\<open>data->points_checked++;
  if (isInsidePolygon(data->polygon, data->polygon_size, p)) data->points_inside++;\<close>
\<close>

definition critical_section :: "SharedData \<Rightarrow> Point \<Rightarrow> SharedData" where
  "critical_section data p =
     (let data1 = data\<lparr>points_checked := points_checked data + 1\<rparr>
      in if isInsidePolygon (polygon data1) (polygon_size data1) p
         then data1\<lparr>points_inside := points_inside data1 + 1\<rparr>
         else data1)"

text \<open>
  The state of the threads.  A worker thread is its loop variable \<open>i\<close>
  (\<open>for (int i = 0; i < points_per_thread; i++)\<close>, where
  \<open>points_per_thread = data->total_points\<close>); \<open>workers\<close> lists the worker threads
  created so far.  The progress thread is not yet created, in its loop, or returned.
\<close>

datatype thread = Not_created | Running | Returned

record system =
  data :: SharedData
  workers :: "int list"
  progress :: thread

datatype error =
  Usage | Invalid_counts | Open_failed | Malloc_failed | Too_many_points | Invalid_polygon

text \<open>
  What a run does that can be observed: a message on \<open>stderr\<close>, the creation of a
  thread, one sample of worker \<open>k\<close> (the point it classified), one line of the progress
  thread (the percentage printed), the final line with the estimated area.
\<close>

datatype event =
  Stderr error
  | Create_worker nat
  | Create_progress
  | Sample nat Point
  | Progress int
  | Stdout_area real

text \<open>
  One step of the threads of \<open>main\<close>, for \<open>num_threads\<close> workers:
  \<^item> \<open>main\<close> creates the next worker, or, once all are created, the progress thread;
  \<^item> worker \<open>k\<close>, whose \<open>i\<close> is below \<open>points_per_thread\<close>, draws a point and runs its
    critical section (\<open>rand()\<close> returns a value from 0 to \<open>RAND_MAX\<close>);
  \<^item> the progress thread wakes up, reads \<open>points_checked\<close>, prints
    \<open>(checked * 100) / data->total_points\<close> and returns if
    \<open>checked >= data->total_points\<close>.
\<close>

inductive step :: "int \<Rightarrow> int \<Rightarrow> system \<Rightarrow> event \<Rightarrow> system \<Rightarrow> bool"
  for RAND_MAX :: int and num_threads :: int where
  create_worker:
    "length (workers s) < nat num_threads \<Longrightarrow>
     k = length (workers s) \<Longrightarrow>
     s' = s\<lparr>workers := workers s @ [0]\<rparr> \<Longrightarrow>
     step RAND_MAX num_threads s (Create_worker k) s'"
| create_progress:
    "length (workers s) = nat num_threads \<Longrightarrow>
     progress s = Not_created \<Longrightarrow>
     s' = s\<lparr>progress := Running\<rparr> \<Longrightarrow>
     step RAND_MAX num_threads s Create_progress s'"
| worker_thread:
    "k < length (workers s) \<Longrightarrow>
     workers s ! k < total_points (data s) \<Longrightarrow>
     0 \<le> r1 \<Longrightarrow> r1 \<le> RAND_MAX \<Longrightarrow> 0 \<le> r2 \<Longrightarrow> r2 \<le> RAND_MAX \<Longrightarrow>
     p = random_point RAND_MAX r1 r2 \<Longrightarrow>
     s' = s\<lparr>data := critical_section (data s) p,
             workers := (workers s)[k := workers s ! k + 1]\<rparr> \<Longrightarrow>
     step RAND_MAX num_threads s (Sample k p) s'"
| progress_bar:
    "progress s = Running \<Longrightarrow>
     checked = points_checked (data s) \<Longrightarrow>
     pct = (checked * 100) div total_points (data s) \<Longrightarrow>
     s' = s\<lparr>progress := (if checked \<ge> total_points (data s) then Returned else Running)\<rparr> \<Longrightarrow>
     step RAND_MAX num_threads s (Progress pct) s'"

inductive run :: "int \<Rightarrow> int \<Rightarrow> system \<Rightarrow> event list \<Rightarrow> system \<Rightarrow> bool"
  for RAND_MAX :: int and num_threads :: int where
  run_nil: "run RAND_MAX num_threads s [] s"
| run_step:
    "run RAND_MAX num_threads s es s' \<Longrightarrow>
     step RAND_MAX num_threads s' e s'' \<Longrightarrow>
     run RAND_MAX num_threads s (es @ [e]) s''"

text \<open>
  Both join loops of \<open>main\<close> have returned: every worker was created and has left its
  loop, and the progress thread has returned.
\<close>

definition joined :: "int \<Rightarrow> system \<Rightarrow> bool" where
  "joined num_threads s =
     (length (workers s) = nat num_threads \<and>
      list_all (\<lambda>i. \<not> i < total_points (data s)) (workers s) \<and>
      progress s = Returned)"

section \<open>main\<close>

text \<open>
  What \<open>main\<close> receives: \<open>argc\<close>, the two \<open>atoi\<close> results, the descriptor returned by
  \<open>open\<close>, whether \<open>malloc\<close> returned \<open>NULL\<close>, and \<open>vertices\<close>: the points that the
  \<open>sscanf\<close> calls of the read loop convert, in order, when the loop runs to the end of
  the file.
\<close>

record invocation =
  argc :: int
  num_threads :: int
  num_pontos_aleatorios :: int
  arquivo :: int
  malloc_null :: bool
  vertices :: "Point list"

definition MAX_POINTS :: nat where
  "MAX_POINTS = 1000000"

definition EXIT_SUCCESS :: int where
  "EXIT_SUCCESS = 0"

definition EXIT_FAILURE :: int where
  "EXIT_FAILURE = 1"

text \<open>
  \<open>main\<close> up to \<open>pthread_mutex_init\<close> (lines 151 to 214): each early
  \<open>return EXIT_FAILURE\<close> with its message, in the order of the source, or the
  initialised \<open>SharedData\<close>.  The read loop fails as soon as \<open>n\<close> reaches \<open>capacity\<close>.
\<close>

definition main_setup :: "invocation \<Rightarrow> error + SharedData" where
  "main_setup args =
     (if argc args \<noteq> 4 then Inl Usage
      else if num_threads args \<le> 0 \<or> num_pontos_aleatorios args \<le> 0 then Inl Invalid_counts
      else if arquivo args < 0 then Inl Open_failed
      else if malloc_null args then Inl Malloc_failed
      else if length (vertices args) \<ge> MAX_POINTS then Inl Too_many_points
      else if length (vertices args) < 3 then Inl Invalid_polygon
      else Inr \<lparr>polygon = vertices args,
                polygon_size = length (vertices args),
                total_points = num_pontos_aleatorios args,
                points_inside = 0,
                points_checked = 0\<rparr>)"

text \<open>
  \<^verbatim>\<open>double area_of_reference = 4.0;
  double estimated_area = ((double)data.points_inside / num_pontos_aleatorios) * area_of_reference;\<close>
\<close>

definition area_of_reference :: real where
  "area_of_reference = 4"

definition estimated_area :: "SharedData \<Rightarrow> int \<Rightarrow> real" where
  "estimated_area d num_pontos =
     (real_of_int (points_inside d) / real_of_int num_pontos) * area_of_reference"

text \<open>
  A terminated execution of \<open>main\<close>: its exit status and what it did, in order.
  Either the setup fails, with its message and nothing else, or the threads run from the
  initialised data until both join loops have returned and the estimate is printed.
\<close>

inductive main :: "int \<Rightarrow> invocation \<Rightarrow> int \<times> event list \<Rightarrow> bool"
  for RAND_MAX :: int and args :: invocation where
  failure:
    "main_setup args = Inl e \<Longrightarrow>
     main RAND_MAX args (EXIT_FAILURE, [Stderr e])"
| success:
    "main_setup args = Inr d \<Longrightarrow>
     run RAND_MAX (num_threads args) \<lparr>data = d, workers = [], progress = Not_created\<rparr> es s \<Longrightarrow>
     joined (num_threads args) s \<Longrightarrow>
     main RAND_MAX args
       (EXIT_SUCCESS, es @ [Stdout_area (estimated_area (data s) (num_pontos_aleatorios args))])"

section \<open>Predicates and inputs used in the statements\<close>

text \<open>
  Edge \<open>i\<close> decides the query: in the loop body at \<open>i\<close> both tests leading to
  \<open>return onSegment(polygon[i], p, polygon[next])\<close> succeed, that is, the ray from \<open>p\<close>
  to \<open>extreme\<close> meets the edge and \<open>p\<close> is colinear with its endpoints.
\<close>

definition edge_decides :: "Point list \<Rightarrow> nat \<Rightarrow> Point \<Rightarrow> nat \<Rightarrow> bool" where
  "edge_decides pg n p i =
     (doIntersect (pg ! i) (pg ! ((i + 1) mod n)) p \<lparr>x = 5 / 2, y = y p\<rparr> \<and>
      orientation (pg ! i) p (pg ! ((i + 1) mod n)) = 0)"

text \<open>The cross product \<open>(q - p) \<times> (r - q)\<close> of the specification, in exact arithmetic.\<close>

definition cross_product :: "Point \<Rightarrow> Point \<Rightarrow> Point \<Rightarrow> real" where
  "cross_product p q r = (x q - x p) * (y r - y q) - (y q - y p) * (x r - x q)"

text \<open>
  The operation with exact result \<open>v\<close> is exact: nothing is rounded.  \<open>exact_val p q r\<close>:
  all seven operations of \<open>val\<close> in \<open>orientation(p, q, r)\<close> are exact.
\<close>

definition exact :: "real \<Rightarrow> bool" where
  "exact v = (rn64 v = Finite v)"





text \<open>
  The estimate in the words of the specification:
  \<open>(counters.inside / config.total_points) * domain_area\<close>.
\<close>

definition estimate :: "int \<Rightarrow> int \<Rightarrow> real \<Rightarrow> real" where
  "estimate inside total_count domain_area =
     (real_of_int inside / real_of_int total_count) * domain_area"

text \<open>
  The invariant of the threads: \<open>points_checked\<close> is the sum of the workers' loop
  variables, no loop variable has passed \<open>points_per_thread\<close>, and
  \<open>0 \<le> points_inside \<le> points_checked\<close>.
\<close>

definition consistent :: "system \<Rightarrow> bool" where
  "consistent s =
     (0 \<le> total_points (data s) \<and>
      points_checked (data s) = sum_list (workers s) \<and>
      list_all (\<lambda>i. 0 \<le> i \<and> i \<le> total_points (data s)) (workers s) \<and>
      0 \<le> points_inside (data s) \<and>
      points_inside (data s) \<le> points_checked (data s))"

text \<open>Two polygons, and invocations on a file that holds the unit square.\<close>

definition unit_square :: "Point list" where
  "unit_square = [\<lparr>x = 0, y = 0\<rparr>, \<lparr>x = 1, y = 0\<rparr>, \<lparr>x = 1, y = 1\<rparr>, \<lparr>x = 0, y = 1\<rparr>]"

definition L_shape :: "Point list" where
  "L_shape = [\<lparr>x = 0, y = 0\<rparr>, \<lparr>x = 2, y = 0\<rparr>, \<lparr>x = 2, y = 1\<rparr>,
              \<lparr>x = 1, y = 1\<rparr>, \<lparr>x = 1, y = 2\<rparr>, \<lparr>x = 0, y = 2\<rparr>]"

definition square_run :: "int \<Rightarrow> int \<Rightarrow> invocation" where
  "square_run nt np =
     \<lparr>argc = 4, num_threads = nt, num_pontos_aleatorios = np, arquivo = 3,
      malloc_null = False, vertices = unit_square\<rparr>"

definition square_data :: SharedData where
  "square_data =
     \<lparr>polygon = unit_square, polygon_size = 4, total_points = 1,
      points_inside = 0, points_checked = 0\<rparr>"

section \<open>The geometry kernel: properties\<close>

lemmas kernel_defs =
  isInsidePolygon_def doIntersect_def orientation_def onSegment_def fmax_def fmin_def Let_def

text \<open>The model runs: the centre of the unit square is inside, a point to its right is not.\<close>

lemma unit_square_centre_inside: "isInsidePolygon unit_square 4 \<lparr>x = 1 / 2, y = 1 / 2\<rparr>"
  by (simp add: unit_square_def kernel_defs)

lemma unit_square_right_outside: "\<not> isInsidePolygon unit_square 4 \<lparr>x = 3 / 2, y = 1 / 2\<rparr>"
  by (simp add: unit_square_def kernel_defs)

subsection \<open>orientation\<close>




text \<open>Rounding: how \<open>round_even\<close>, \<open>binade\<close> and \<open>rn64\<close> evaluate.\<close>

lemma round_even_nearest:
  assumes "\<bar>w - of_int k\<bar> < 1 / 2"
  shows "round_even w = k"
proof -
  have "\<lfloor>w\<rfloor> = k \<or> \<lfloor>w\<rfloor> = k - 1" using assms by linarith
  then show ?thesis
  proof
    assume f: "\<lfloor>w\<rfloor> = k"
    then have "w - of_int k < 1 / 2" using assms by linarith
    with f show ?thesis by (simp add: round_even_def Let_def)
  next
    assume f: "\<lfloor>w\<rfloor> = k - 1"
    have "w - of_int k > - 1 / 2" using assms by linarith
    then have "1 / 2 < w - of_int (k - 1)" by simp
    with f show ?thesis by (simp add: round_even_def Let_def)
  qed
qed

lemma round_even_of_int [simp]: "round_even (of_int k) = k"
  by (rule round_even_nearest) simp

lemma binade_eq:
  assumes "e0 \<le> e" and "e \<le> 971"
    and "\<bar>v\<bar> < 2 powi (e + 53) \<or> e = 971"
    and "e = e0 \<or> 2 powi (e + 52) \<le> \<bar>v\<bar>"
  shows "binade e0 v = e"
  using assms
proof (induction "nat (e - e0)" arbitrary: e0)
  case 0
  then have e: "e0 = e" by simp
  have "\<not> (e < 971 \<and> 2 powi (e + 53) \<le> \<bar>v\<bar>)"
    using 0(4) by auto
  then show ?case
    unfolding e by (subst binade.simps) (simp only: if_False)
next
  case (Suc n)
  then have lt: "e0 < e" by linarith
  with Suc.prems have "2 powi (e + 52) \<le> \<bar>v\<bar>" by auto
  moreover have "(2::real) powi (e0 + 53) \<le> 2 powi (e + 52)"
    using lt by (intro power_int_increasing) auto
  ultimately have ge: "2 powi (e0 + 53) \<le> \<bar>v\<bar>" by linarith
  have n: "n = nat (e - (e0 + 1))" using Suc.hyps(2) by linarith
  have ih: "binade (e0 + 1) v = e"
    using Suc.hyps(1)[OF n] Suc.prems lt by auto
  have c: "e0 < 971 \<and> 2 powi (e0 + 53) \<le> \<bar>v\<bar>"
    using ge lt Suc.prems(2) by simp
  show ?case
    by (subst binade.simps) (simp only: c ih simp_thms if_True)
qed

lemma rn64_eval:
  assumes "- 1074 \<le> e" and "e \<le> 971"
    and "\<bar>v\<bar> < 2 powi (e + 53)"
    and "e = - 1074 \<or> 2 powi (e + 52) \<le> \<bar>v\<bar>"
    and "\<bar>v / 2 powi e - of_int k\<bar> < 1 / 2"
    and "\<bar>of_int k * 2 powi e\<bar> < (2::real) powi 1024"
  shows "rn64 v = Finite (of_int k * 2 powi e)"
proof -
  have b: "binade (- 1074) v = e"
    using assms(1-4) by (intro binade_eq) auto
  have r: "round_even (v / 2 powi e) = k"
    using assms(5) by (rule round_even_nearest)
  have "\<not> 2 powi 1024 \<le> real_of_int k * 2 powi e"
    "\<not> real_of_int k * 2 powi e \<le> - (2 powi 1024)"
    using assms(6) by linarith+
  then show ?thesis
    unfolding rn64_def b Let_def r by (simp only: if_False)
qed

lemma rn64_exact:
  assumes "v = of_int k * 2 powi e" and "- 1074 \<le> e" and "e \<le> 971"
    and "\<bar>k\<bar> < 2 ^ 53" and "e = - 1074 \<or> 2 ^ 52 \<le> \<bar>k\<bar>"
  shows "rn64 v = Finite v"
proof -
  have p: "(0::real) < 2 powi e" by simp
  have s: "(2::real) powi (e + 53) = 2 ^ 53 * 2 powi e" "(2::real) powi (e + 52) = 2 ^ 52 * 2 powi e"
    by (simp_all add: power_int_add)
  have av: "\<bar>v\<bar> = real_of_int \<bar>k\<bar> * 2 powi e"
    unfolding assms(1) by (simp add: abs_mult)
  have 1: "\<bar>v\<bar> < 2 powi (e + 53)"
  proof -
    have "real_of_int \<bar>k\<bar> < of_int (2 ^ 53)" using assms(4) by (subst of_int_less_iff)
    then have "real_of_int \<bar>k\<bar> < 2 ^ 53" by simp
    then show ?thesis unfolding av s using p by simp
  qed
  have 2: "e = - 1074 \<or> 2 powi (e + 52) \<le> \<bar>v\<bar>"
  proof (cases "e = - 1074")
    case False
    with assms(5) have "2 ^ 52 \<le> \<bar>k\<bar>" by simp
    then have "real_of_int (2 ^ 52) \<le> of_int \<bar>k\<bar>" by (subst of_int_le_iff)
    then have "(2::real) ^ 52 \<le> real_of_int \<bar>k\<bar>" by simp
    then show ?thesis unfolding av s using p by simp
  qed simp
  have 3: "\<bar>v / 2 powi e - of_int k\<bar> < 1 / 2"
    unfolding assms(1) using p by simp
  have "\<bar>v\<bar> < 2 powi (971 + 53)"
  proof -
    have "(2::real) powi (e + 53) \<le> 2 powi (971 + 53)"
      using assms(3) by (intro power_int_increasing) auto
    with 1 show ?thesis by linarith
  qed
  then have 4: "\<bar>of_int k * 2 powi e\<bar> < (2::real) powi 1024"
    unfolding assms(1) by simp
  show ?thesis
    using rn64_eval[OF assms(2,3) 1 2 3 4] assms(1) by simp
qed

lemma exact_zero [simp]: "exact 0"
  unfolding exact_def using rn64_exact[of 0 0 "- 1074"] by simp

lemma exact_one [simp]: "exact 1"
  unfolding exact_def using rn64_exact[of 1 "2 ^ 52" "- 52"] by (simp add: power_int_minus)

lemma exact_minus_one [simp]: "exact (- 1)"
  unfolding exact_def using rn64_exact[of "- 1" "- (2 ^ 52)" "- 52"] by (simp add: power_int_minus)

text \<open>A finite result is within half a unit in the last place of the exact value.\<close>

lemma round_even_error: "\<bar>w - of_int (round_even w)\<bar> \<le> 1 / 2"
proof -
  define f where "f = \<lfloor>w\<rfloor>"
  have "of_int f \<le> w" "w < of_int f + 1"
    unfolding f_def by linarith+
  then show ?thesis
    unfolding round_even_def Let_def f_def[symmetric]
    by (simp add: abs_if)
qed

lemma rn64_error:
  assumes "rn64 v = Finite d"
  shows "\<bar>v - d\<bar> \<le> 2 powi (binade (- 1074) v) / 2"
proof -
  let ?e = "binade (- 1074) v"
  have d: "d = of_int (round_even (v / 2 powi ?e)) * 2 powi ?e"
    using assms unfolding rn64_def Let_def by (auto split: if_splits)
  have p: "(0::real) < 2 powi ?e" by simp
  have "\<bar>v - d\<bar> = \<bar>v / 2 powi ?e - of_int (round_even (v / 2 powi ?e))\<bar> * 2 powi ?e"
  proof -
    have "v - d = (v / 2 powi ?e - of_int (round_even (v / 2 powi ?e))) * 2 powi ?e"
      unfolding d using p by (simp add: algebra_simps)
    then show ?thesis using p by (simp add: abs_mult)
  qed
  also have "\<dots> \<le> 1 / 2 * 2 powi ?e"
    using round_even_error[of "v / 2 powi ?e"] p by (intro mult_right_mono) auto
  finally show ?thesis by simp
qed

text \<open>
  The model rounds as binary64 does: \<open>0.1\<close> becomes the double
  \<open>3602879701896397 / 2^55\<close>, \<open>2^-1200\<close> underflows to 0, \<open>2^1024\<close> overflows.
\<close>

lemma rn64_tenth: "rn64 (1 / 10) = Finite (3602879701896397 / 36028797018963968)"
  using rn64_eval[of "- 56" "1 / 10" 7205759403792794] by (simp add: power_int_minus)

lemma rn64_underflow: "rn64 (1 / 2 ^ 1200) = Finite 0"
  using rn64_eval[of "- 1074" "1 / 2 ^ 1200" 0] by (simp add: power_int_minus)

lemma rn64_overflow: "rn64 (2 ^ 1024) = PosInf"
proof -
  have b: "binade (- 1074) (2 ^ 1024) = 971"
    by (rule binade_eq) simp_all
  have "(2::real) ^ 1024 / 2 powi 971 = of_int (2 ^ 53)"
    by simp
  then have r: "round_even (2 ^ 1024 / 2 powi 971) = 2 ^ 53"
    by (simp only: round_even_of_int)
  show ?thesis
    unfolding rn64_def b Let_def r by simp
qed



lemma exact_near:
  "exact (4503599627370497 / 4503599627370496)"
  "exact (4503599627370495 / 4503599627370496)"
  "exact (1 / 4503599627370496)"
  "exact (- (1 / 4503599627370496))"
  "exact (- (4503599627370495 / 4503599627370496))"
  "exact (- (4503599627370495 / 20282409603651670423947251286016))"
  "exact (1 / 20282409603651670423947251286016)"
  unfolding exact_def
  using rn64_exact[of "4503599627370497 / 4503599627370496" 4503599627370497 "- 52"]
    rn64_exact[of "4503599627370495 / 4503599627370496" 9007199254740990 "- 53"]
    rn64_exact[of "1 / 4503599627370496" 4503599627370496 "- 104"]
    rn64_exact[of "- (1 / 4503599627370496)" "- 4503599627370496" "- 104"]
    rn64_exact[of "- (4503599627370495 / 4503599627370496)" "- 9007199254740990" "- 53"]
    rn64_exact[of "- (4503599627370495 / 20282409603651670423947251286016)"
      "- 9007199254740990" "- 105"]
    rn64_exact[of "1 / 20282409603651670423947251286016" 4503599627370496 "- 156"]
  by (simp_all add: power_int_minus)


lemmas exact_simps =
  exact_near[unfolded exact_def] exact_zero[unfolded exact_def] exact_one[unfolded exact_def]
  exact_minus_one[unfolded exact_def]




text \<open>
  Underflow does the same: at \<open>(0,0)\<close>, \<open>(2^-600, 0)\<close>, \<open>(0, 2^-600)\<close>, a right angle,
  the product \<open>2^-1200\<close> is rounded to 0 and the code answers Colinear.
\<close>

lemma orientation64_underflow:
  "orientation64 \<lparr>x = 0, y = 0\<rparr> \<lparr>x = 1 / 2 ^ 600, y = 0\<rparr> \<lparr>x = 0, y = 1 / 2 ^ 600\<rparr> = 0 \<and>
   cross_product \<lparr>x = 0, y = 0\<rparr> \<lparr>x = 1 / 2 ^ 600, y = 0\<rparr> \<lparr>x = 0, y = 1 / 2 ^ 600\<rparr> \<noteq> 0"
proof -
  have e: "rn64 (1 / 2 ^ 600) = Finite (1 / 2 ^ 600)"
    "rn64 (- (1 / 2 ^ 600)) = Finite (- (1 / 2 ^ 600))"
    using rn64_exact[of "1 / 2 ^ 600" "2 ^ 52" "- 652"]
      rn64_exact[of "- (1 / 2 ^ 600)" "- (2 ^ 52)" "- 652"]
    by (simp_all add: power_int_minus)
  have u: "rn64 (1 / 2 ^ 600 * (1 / 2 ^ 600)) = Finite 0"
    using rn64_underflow by simp
  show ?thesis
    using e u by (simp add: orientation64_def cross_product_def exact_simps del: power_numeral)
qed

subsection \<open>onSegment\<close>

text \<open>
  C7.  \<open>onSegment p q r\<close> is true exactly when \<open>q\<close> lies in the axis-aligned bounding
  box of \<open>p\<close> and \<open>r\<close>.  It does not test colinearity: \<open>(1, 0)\<close> is in the box of
  \<open>(0, 0)\<close> and \<open>(1, 1)\<close>, and is not colinear with them.
\<close>

theorem onSegment_bounding_box:
  "(onSegment p q r \<longleftrightarrow>
      min (x p) (x r) \<le> x q \<and> x q \<le> max (x p) (x r) \<and>
      min (y p) (y r) \<le> y q \<and> y q \<le> max (y p) (y r)) \<and>
   (onSegment \<lparr>x = 0, y = 0\<rparr> \<lparr>x = 1, y = 0\<rparr> \<lparr>x = 1, y = 1\<rparr> \<and>
    orientation \<lparr>x = 0, y = 0\<rparr> \<lparr>x = 1, y = 0\<rparr> \<lparr>x = 1, y = 1\<rparr> \<noteq> 0)"
  unfolding onSegment_def fmax_def fmin_def orientation_def by auto

subsection \<open>doIntersect\<close>

text \<open>
  C6.  The intersection test is symmetric in its two segments.  Exchanging the segments
  exchanges \<open>o1, o2\<close> with \<open>o3, o4\<close> and the first two \<open>onSegment\<close> tests with the last
  two; no property of \<open>orientation\<close> is needed.
\<close>

theorem doIntersect_symmetric: "doIntersect a b c d = doIntersect c d a b"
  unfolding doIntersect_def Let_def by auto

subsection \<open>isInsidePolygon\<close>

text \<open>
  C4.  With fewer than 3 vertices \<open>isInsidePolygon\<close> returns false, whatever the array
  and the point.
\<close>

theorem isInsidePolygon_fails_closed: "n < 3 \<Longrightarrow> isInsidePolygon pg n p = False"
  by (simp add: isInsidePolygon_def)

theorem isInsidePolygon_fails_closed_witness:
  "isInsidePolygon [\<lparr>x = 0, y = 0\<rparr>, \<lparr>x = 2, y = 2\<rparr>] 2 \<lparr>x = 1, y = 1\<rparr> = False"
  using isInsidePolygon_fails_closed
    [of 2 "[\<lparr>x = 0, y = 0\<rparr>, \<lparr>x = 2, y = 2\<rparr>]" "\<lparr>x = 1, y = 1\<rparr>"]
  by simp

text \<open>
  The loop, entered at an edge \<open>k\<close> at or before the first deciding edge \<open>i\<close>, returns
  what \<open>onSegment\<close> says for edge \<open>i\<close>: the edges from \<open>k\<close> to \<open>i - 1\<close> only change
  \<open>count\<close>.
\<close>

lemma loop_first_decides:
  assumes "i < n" and "edge_decides pg n p i"
    and "\<forall>j. k \<le> j \<and> j < i \<longrightarrow> \<not> edge_decides pg n p j" and "k \<le> i"
  shows "isInsidePolygon_loop pg n p \<lparr>x = 5 / 2, y = y p\<rparr> c k =
         onSegment (pg ! i) p (pg ! ((i + 1) mod n))"
  using assms
proof (induction "i - k" arbitrary: k c)
  case 0
  then have "k = i" by simp
  with 0 show ?case
    by (subst isInsidePolygon_loop.simps) (simp add: edge_decides_def Let_def)
next
  case (Suc d)
  then have lt: "k < i" and nd: "\<not> edge_decides pg n p k" by auto
  with Suc.prems have nx: "(k + 1) mod n = k + 1" "k + 1 \<noteq> 0" "0 < n" by auto
  have ih: "isInsidePolygon_loop pg n p \<lparr>x = 5 / 2, y = y p\<rparr> c' (k + 1) =
         onSegment (pg ! i) p (pg ! ((i + 1) mod n))" for c'
    using Suc.hyps(1)[of "k + 1" c'] Suc.hyps(2) Suc.prems lt by auto
  show ?case
    using nd nx ih
    by (subst isInsidePolygon_loop.simps) (auto simp add: edge_decides_def Let_def)
qed

text \<open>
  C3, as the code has it.  For a polygon of at least 3 vertices, let \<open>i\<close> be the first edge,
  in the order of the loop, that the ray from \<open>p\<close> to \<open>(2.5, p.y)\<close> meets and with whose
  endpoints \<open>p\<close> is colinear.  Then \<open>isInsidePolygon\<close> returns exactly
  \<open>onSegment (polygon[i], p, polygon[next])\<close>, and the remaining edges are not visited.
  The colinearity test is made only inside \<open>if (doIntersect(...))\<close>: an edge that is
  colinear with \<open>p\<close> and not met by the ray decides nothing.
\<close>

theorem first_colinear_hit_edge_decides:
  assumes "3 \<le> n" and "n \<le> length pg" and "i < n"
    and "edge_decides pg n p i"
    and "\<forall>j<i. \<not> edge_decides pg n p j"
  shows "isInsidePolygon pg n p = onSegment (pg ! i) p (pg ! ((i + 1) mod n))"
  using assms loop_first_decides[of i n pg p 0 0]
  by (simp add: isInsidePolygon_def)

text \<open>
  The theorem at the unit square and \<open>p = (1, 0.5)\<close>, a point of its edge 1: edge 0 is not
  met by the ray, edge 1 decides, and \<open>onSegment\<close> is true.
\<close>

theorem first_colinear_hit_edge_decides_witness:
  "isInsidePolygon unit_square 4 \<lparr>x = 1, y = 1 / 2\<rparr> =
     onSegment (unit_square ! 1) \<lparr>x = 1, y = 1 / 2\<rparr> (unit_square ! ((1 + 1) mod 4)) \<and>
   edge_decides unit_square 4 \<lparr>x = 1, y = 1 / 2\<rparr> 1 \<and>
   \<not> edge_decides unit_square 4 \<lparr>x = 1, y = 1 / 2\<rparr> 0 \<and>
   onSegment (unit_square ! 1) \<lparr>x = 1, y = 1 / 2\<rparr> (unit_square ! ((1 + 1) mod 4))"
proof -
  have a: "edge_decides unit_square 4 \<lparr>x = 1, y = 1 / 2\<rparr> 1"
    by (simp add: edge_decides_def unit_square_def kernel_defs)
  have b: "\<not> edge_decides unit_square 4 \<lparr>x = 1, y = 1 / 2\<rparr> 0"
    by (simp add: edge_decides_def unit_square_def kernel_defs)
  have c: "\<forall>j<1. \<not> edge_decides unit_square 4 \<lparr>x = 1, y = 1 / 2\<rparr> j"
    using b by simp
  have d: "onSegment (unit_square ! 1) \<lparr>x = 1, y = 1 / 2\<rparr> (unit_square ! ((1 + 1) mod 4))"
    by (simp add: unit_square_def kernel_defs)
  have l: "4 \<le> length unit_square"
    by (simp add: unit_square_def)
  show ?thesis
    using first_colinear_hit_edge_decides
      [of 4 unit_square 1 "\<lparr>x = 1, y = 1 / 2\<rparr>", OF _ l _ a c] a b d
    by simp
qed

text \<open>
  C3 as the specification words it fails.  In the L-shaped hexagon
  \<open>(0,0) (2,0) (2,1) (1,1) (1,2) (0,2)\<close> the point \<open>p = (1, 0.5)\<close> is colinear with the
  endpoints \<open>(1,1)\<close>, \<open>(1,2)\<close> of edge 3 and outside that edge's bounding box, so
  \<open>onSegment\<close> is false for it; the ray from \<open>p\<close> does not meet edge 3, the loop goes on,
  counts the one crossing with edge 1, and \<open>isInsidePolygon\<close> returns true.
\<close>

theorem colinear_edge_not_decisive_counterexample:
  "orientation (L_shape ! 3) \<lparr>x = 1, y = 1 / 2\<rparr> (L_shape ! ((3 + 1) mod 6)) = 0 \<and>
   onSegment (L_shape ! 3) \<lparr>x = 1, y = 1 / 2\<rparr> (L_shape ! ((3 + 1) mod 6)) = False \<and>
   isInsidePolygon L_shape 6 \<lparr>x = 1, y = 1 / 2\<rparr> = True"
  by (simp add: L_shape_def kernel_defs)

section \<open>The sampling engine: properties\<close>

subsection \<open>One critical section\<close>

lemma critical_section_checked [simp]:
  "points_checked (critical_section d p) = points_checked d + 1"
  by (simp add: critical_section_def Let_def)

lemma critical_section_total [simp]:
  "total_points (critical_section d p) = total_points d"
  by (simp add: critical_section_def Let_def)

lemma critical_section_inside:
  "points_inside (critical_section d p) =
     points_inside d + (if isInsidePolygon (polygon d) (polygon_size d) p then 1 else 0)"
  by (simp add: critical_section_def Let_def)

subsection \<open>Invariants of the threads\<close>

lemma sum_list_bump:
  fixes ws :: "int list"
  shows "k < length ws \<Longrightarrow> sum_list (ws[k := ws ! k + 1]) = sum_list ws + 1"
  by (induction ws arbitrary: k) (auto split: nat.splits)

lemma list_all_update:
  "list_all P ws \<Longrightarrow> P v \<Longrightarrow> list_all P (ws[k := v])"
  by (induction ws arbitrary: k) (auto split: nat.splits)

lemma step_total_points:
  "step RAND_MAX nt s e s' \<Longrightarrow> total_points (data s') = total_points (data s)"
  by (induction rule: step.induct) auto

lemma step_consistent:
  assumes "step RAND_MAX nt s e s'" and "consistent s"
  shows "consistent s'"
  using assms
proof (induction rule: step.induct)
  case (worker_thread k s r1 r2 p s')
  have "list_all (\<lambda>i. 0 \<le> i \<and> i \<le> total_points (data s)) ((workers s)[k := workers s ! k + 1])"
  proof (rule list_all_update)
    show "list_all (\<lambda>i. 0 \<le> i \<and> i \<le> total_points (data s)) (workers s)"
      using worker_thread.prems by (simp add: consistent_def)
    then have "0 \<le> workers s ! k"
      using worker_thread.hyps(1) by (simp add: list_all_length)
    then show "0 \<le> workers s ! k + 1 \<and> workers s ! k + 1 \<le> total_points (data s)"
      using worker_thread.hyps(2) by simp
  qed
  then show ?case
    using worker_thread
    by (simp add: consistent_def sum_list_bump critical_section_inside)
qed (simp_all add: consistent_def)

lemma step_monotone:
  assumes "step RAND_MAX nt s e s'"
  shows "points_checked (data s) \<le> points_checked (data s') \<and>
         points_inside (data s) \<le> points_inside (data s')"
  using assms by (induction rule: step.induct) (auto simp: critical_section_inside)

lemma step_workers_length:
  "step RAND_MAX nt s e s' \<Longrightarrow> length (workers s) \<le> nat nt \<Longrightarrow> length (workers s') \<le> nat nt"
  by (induction rule: step.induct) auto

lemma run_total_points:
  "run RAND_MAX nt s es s' \<Longrightarrow> total_points (data s') = total_points (data s)"
  by (induction rule: run.induct) (auto dest: step_total_points)

lemma run_consistent:
  "run RAND_MAX nt s es s' \<Longrightarrow> consistent s \<Longrightarrow> consistent s'"
  by (induction rule: run.induct) (auto dest: step_consistent)

lemma run_monotone:
  "run RAND_MAX nt s es s' \<Longrightarrow>
     points_checked (data s) \<le> points_checked (data s') \<and>
     points_inside (data s) \<le> points_inside (data s')"
  by (induction rule: run.induct) (auto dest: step_monotone)

lemma run_workers_length:
  "run RAND_MAX nt s es s' \<Longrightarrow> length (workers s) \<le> nat nt \<Longrightarrow> length (workers s') \<le> nat nt"
  by (induction rule: run.induct) (auto dest: step_workers_length)

lemma sum_list_all_equal:
  fixes ws :: "int list"
  shows "list_all (\<lambda>i. i = t) ws \<Longrightarrow> sum_list ws = int (length ws) * t"
  by (induction ws) (auto simp: algebra_simps)

lemma sum_list_bounded:
  fixes ws :: "int list"
  shows "list_all (\<lambda>i. 0 \<le> i \<and> i \<le> t) ws \<Longrightarrow> sum_list ws \<le> int (length ws) * t"
  by (induction ws) (auto simp: algebra_simps)

lemma initial_consistent:
  "0 \<le> total_points d \<Longrightarrow> points_inside d = 0 \<Longrightarrow> points_checked d = 0 \<Longrightarrow>
   consistent \<lparr>data = d, workers = [], progress = Not_created\<rparr>"
  by (simp add: consistent_def)

lemma joined_checked:
  assumes "consistent s" and "joined nt s"
  shows "points_checked (data s) = int (nat nt) * total_points (data s)"
proof -
  have "list_all (\<lambda>i. i = total_points (data s)) (workers s)"
    using assms by (fastforce simp: consistent_def joined_def list_all_iff)
  then have "sum_list (workers s) = int (length (workers s)) * total_points (data s)"
    by (rule sum_list_all_equal)
  then show ?thesis
    using assms by (simp add: consistent_def joined_def)
qed

subsection \<open>main\<close>

lemma main_setup_Inr:
  assumes "main_setup args = Inr d"
  shows "argc args = 4 \<and> 0 < num_threads args \<and> 0 < num_pontos_aleatorios args \<and>
         3 \<le> length (vertices args) \<and> length (vertices args) < MAX_POINTS \<and>
         d = \<lparr>polygon = vertices args, polygon_size = length (vertices args),
              total_points = num_pontos_aleatorios args, points_inside = 0, points_checked = 0\<rparr>"
  using assms by (auto simp: main_setup_def split: if_splits)

text \<open>
  What holds of the counters in every state of every execution of \<open>main\<close>: they are never
  negative, \<open>points_inside\<close> never exceeds \<open>points_checked\<close>, and \<open>points_checked\<close> never
  exceeds \<open>num_threads * total_points\<close>.  Each step leaves both counters or increases
  them (\<open>step_monotone\<close>, \<open>run_monotone\<close>).
\<close>

lemma run_invariant:
  assumes "main_setup args = Inr d"
    and "run RAND_MAX (num_threads args) \<lparr>data = d, workers = [], progress = Not_created\<rparr> es s"
  shows "0 \<le> points_inside (data s) \<and>
         points_inside (data s) \<le> points_checked (data s) \<and>
         points_checked (data s) \<le> num_threads args * total_points (data s) \<and>
         total_points (data s) = num_pontos_aleatorios args"
proof -
  from main_setup_Inr[OF assms(1)] have d: "points_inside d = 0" "points_checked d = 0"
    "total_points d = num_pontos_aleatorios args" "0 < num_threads args" "0 \<le> total_points d"
    by auto
  have c: "consistent s"
    using run_consistent[OF assms(2)] initial_consistent[of d] d by simp
  have t: "total_points (data s) = num_pontos_aleatorios args"
    using run_total_points[OF assms(2)] d by simp
  have l: "length (workers s) \<le> nat (num_threads args)"
    using run_workers_length[OF assms(2)] by simp
  have "sum_list (workers s) \<le> int (length (workers s)) * total_points (data s)"
    using c by (intro sum_list_bounded) (simp add: consistent_def)
  also have "\<dots> \<le> num_threads args * total_points (data s)"
    using l c d by (intro mult_right_mono) (auto simp: consistent_def)
  finally show ?thesis
    using c t by (simp add: consistent_def)
qed

subsection \<open>Every valid invocation has a terminated execution\<close>

text \<open>
  \<open>main\<close> creates the workers and the progress thread, each worker in turn runs its loop
  to the end (with \<open>rand()\<close> returning 0), and the progress thread then reads
  \<open>points_checked \<ge> total_points\<close> and returns: the joins return and \<open>main\<close> exits with
  \<open>EXIT_SUCCESS\<close>.  Hence the statements below about terminated executions are not
  vacuous.
\<close>

lemma run_append:
  "run RAND_MAX nt s' es2 s'' \<Longrightarrow> run RAND_MAX nt s es1 s' \<Longrightarrow>
   run RAND_MAX nt s (es1 @ es2) s''"
proof (induction rule: run.induct)
  case (run_nil s')
  then show ?case by simp
next
  case (run_step s' es s2 e s3)
  then have "run RAND_MAX nt s ((es1 @ es) @ [e]) s3"
    by (intro run.run_step) auto
  then show ?case by simp
qed

lemma workers_created:
  "k \<le> nat nt \<Longrightarrow>
   \<exists>es. run RAND_MAX nt \<lparr>data = d, workers = [], progress = Not_created\<rparr> es
          \<lparr>data = d, workers = replicate k 0, progress = Not_created\<rparr>"
proof (induction k)
  case 0
  show ?case using run_nil[of RAND_MAX nt] by auto
next
  case (Suc k)
  then obtain es where es: "run RAND_MAX nt \<lparr>data = d, workers = [], progress = Not_created\<rparr> es
          \<lparr>data = d, workers = replicate k 0, progress = Not_created\<rparr>"
    by auto
  have "step RAND_MAX nt \<lparr>data = d, workers = replicate k 0, progress = Not_created\<rparr>
          (Create_worker k) \<lparr>data = d, workers = replicate (Suc k) 0, progress = Not_created\<rparr>"
    using Suc.prems by (intro step.create_worker) (simp_all add: replicate_append_same)
  from run_step[OF es this] show ?case by blast
qed

lemma worker_advances:
  assumes "0 \<le> RAND_MAX" and "k < length (workers s)"
    and "workers s ! k + int m \<le> total_points (data s)"
  shows "\<exists>es s'. run RAND_MAX nt s es s' \<and>
           workers s' = (workers s)[k := workers s ! k + int m] \<and>
           progress s' = progress s \<and> total_points (data s') = total_points (data s)"
  using assms(3)
proof (induction m)
  case 0
  show ?case using run_nil[of RAND_MAX nt s] by auto
next
  case (Suc m)
  then obtain es s' where r: "run RAND_MAX nt s es s'"
    and w: "workers s' = (workers s)[k := workers s ! k + int m]"
    and p: "progress s' = progress s" and t: "total_points (data s') = total_points (data s)"
    by auto
  let ?s'' = "s'\<lparr>data := critical_section (data s') (random_point RAND_MAX 0 0),
                  workers := (workers s')[k := workers s' ! k + 1]\<rparr>"
  have "step RAND_MAX nt s' (Sample k (random_point RAND_MAX 0 0)) ?s''"
    using assms(1,2) Suc.prems w t
    by (intro step.worker_thread[where ?r1.0 = 0 and ?r2.0 = 0]) simp_all
  from run_step[OF r this]
  have "run RAND_MAX nt s (es @ [Sample k (random_point RAND_MAX 0 0)]) ?s''" .
  moreover have "workers ?s'' = (workers s)[k := workers s ! k + int (Suc m)]"
    using w assms(2) by (simp add: algebra_simps)
  moreover have "progress ?s'' = progress s" "total_points (data ?s'') = total_points (data s)"
    using p t by simp_all
  ultimately show ?case by blast
qed

lemma worker_finishes:
  assumes "0 \<le> RAND_MAX" and "k < length (workers s)"
    and "workers s ! k \<le> total_points (data s)"
  shows "\<exists>es s'. run RAND_MAX nt s es s' \<and>
           workers s' = (workers s)[k := total_points (data s)] \<and>
           progress s' = progress s \<and> total_points (data s') = total_points (data s)"
  using worker_advances[OF assms(1,2), of "nat (total_points (data s) - workers s ! k)" nt] assms(3)
  by simp

lemma workers_finish:
  assumes "0 \<le> RAND_MAX" and "0 \<le> total_points (data s)"
    and "workers s = replicate n 0" and "j \<le> n"
  shows "\<exists>es s'. run RAND_MAX nt s es s' \<and>
           workers s' = replicate j (total_points (data s)) @ replicate (n - j) 0 \<and>
           progress s' = progress s \<and> total_points (data s') = total_points (data s)"
  using assms(4)
proof (induction j)
  case 0
  show ?case using run_nil[of RAND_MAX nt s] assms(3) by auto
next
  case (Suc j)
  then obtain es s' where r: "run RAND_MAX nt s es s'"
    and w: "workers s' = replicate j (total_points (data s)) @ replicate (n - j) 0"
    and p: "progress s' = progress s" and t: "total_points (data s') = total_points (data s)"
    by auto
  have k: "j < length (workers s')" "workers s' ! j = 0"
    using w Suc.prems by (simp_all add: nth_append)
  from worker_finishes[OF assms(1) k(1), of nt] k(2) t assms(2)
  obtain es2 s'' where r2: "run RAND_MAX nt s' es2 s''"
    and w2: "workers s'' = (workers s')[j := total_points (data s')]"
    and p2: "progress s'' = progress s'" and t2: "total_points (data s'') = total_points (data s')"
    by auto
  have "n - j = Suc (n - Suc j)" using Suc.prems by simp
  then have "workers s'' = replicate (Suc j) (total_points (data s)) @ replicate (n - Suc j) 0"
    using w2 w t by (simp add: list_update_append replicate_append_same)
  with run_append[OF r2 r] p p2 t t2 show ?case by auto
qed

lemma main_terminates:
  assumes "main_setup args = Inr d" and "0 \<le> RAND_MAX"
  shows "\<exists>out. main RAND_MAX args (EXIT_SUCCESS, out)"
proof -
  let ?nt = "num_threads args"
  let ?s0 = "\<lparr>data = d, workers = [], progress = Not_created\<rparr>"
  from main_setup_Inr[OF assms(1)] have d: "points_inside d = 0" "points_checked d = 0"
    "total_points d = num_pontos_aleatorios args" "0 < ?nt" "0 < total_points d"
    by auto
  obtain es1 where r1: "run RAND_MAX ?nt ?s0 es1
      \<lparr>data = d, workers = replicate (nat ?nt) 0, progress = Not_created\<rparr>"
    using workers_created[of "nat ?nt" ?nt RAND_MAX d] by auto
  let ?s1 = "\<lparr>data = d, workers = replicate (nat ?nt) 0, progress = Not_created\<rparr>"
  let ?s2 = "\<lparr>data = d, workers = replicate (nat ?nt) 0, progress = Running\<rparr>"
  have "step RAND_MAX ?nt ?s1 Create_progress ?s2"
    by (intro step.create_progress) simp_all
  from run_step[OF r1 this] have r2: "run RAND_MAX ?nt ?s0 (es1 @ [Create_progress]) ?s2" .
  from workers_finish[OF assms(2), of ?s2 "nat ?nt" "nat ?nt" ?nt] d
  obtain es3 s3 where r3: "run RAND_MAX ?nt ?s2 es3 s3"
    and w3: "workers s3 = replicate (nat ?nt) (total_points d)"
    and p3: "progress s3 = Running" and t3: "total_points (data s3) = total_points d"
    by auto
  have r03: "run RAND_MAX ?nt ?s0 ((es1 @ [Create_progress]) @ es3) s3"
    by (rule run_append[OF r3 r2])
  have "consistent s3"
    using run_consistent[OF r03] initial_consistent[of d] d by simp
  then have c3: "points_checked (data s3) = int (nat ?nt) * total_points d"
    using w3 by (simp add: consistent_def sum_list_replicate)
  have "total_points d \<le> int (nat ?nt) * total_points d"
    using d by (simp add: mult_le_cancel_right1)
  with c3 t3 have ge: "total_points (data s3) \<le> points_checked (data s3)" by simp
  let ?s4 = "s3\<lparr>progress := Returned\<rparr>"
  have "step RAND_MAX ?nt s3
      (Progress ((points_checked (data s3) * 100) div total_points (data s3))) ?s4"
    using p3 ge by (intro step.progress_bar[where checked = "points_checked (data s3)"]) simp_all
  from run_step[OF r03 this] have r4: "run RAND_MAX ?nt ?s0
      (((es1 @ [Create_progress]) @ es3) @
        [Progress ((points_checked (data s3) * 100) div total_points (data s3))]) ?s4" .
  have "joined ?nt ?s4"
    using w3 t3 by (simp add: joined_def list_all_iff)
  from main.success[OF assms(1) r4 this] show ?thesis by blast
qed

subsection \<open>Two executions on the unit square\<close>

text \<open>
  With \<open>RAND_MAX = 2147483647\<close> and \<open>rand()\<close> returning 0 and then \<open>RAND_MAX\<close>, the
  sample is \<open>(0, 2)\<close>.
\<close>

lemma square_setup: "main_setup (square_run 2 1) = Inr square_data"
  "main_setup (square_run 1 1) = Inr square_data"
  by (simp_all add: main_setup_def square_run_def square_data_def unit_square_def MAX_POINTS_def)

lemma random_point_corner: "random_point 2147483647 0 2147483647 = \<lparr>x = 0, y = 2\<rparr>"
  by (simp add: random_point_def)

lemma sample_step:
  assumes "k < length (workers s)" and "workers s ! k < total_points (data s)"
    and "s' = s\<lparr>data := critical_section (data s) \<lparr>x = 0, y = 2\<rparr>,
                 workers := (workers s)[k := workers s ! k + 1]\<rparr>"
  shows "step 2147483647 nt s (Sample k \<lparr>x = 0, y = 2\<rparr>) s'"
  using step.worker_thread[of k s 0 2147483647 2147483647 "\<lparr>x = 0, y = 2\<rparr>" s' nt] assms
  by (simp add: random_point_corner)

lemma two_workers_run:
  "run 2147483647 2 \<lparr>data = square_data, workers = [], progress = Not_created\<rparr>
     [Create_worker 0, Create_worker 1, Create_progress,
      Sample 0 \<lparr>x = 0, y = 2\<rparr>, Sample 1 \<lparr>x = 0, y = 2\<rparr>, Progress 200]
     \<lparr>data = critical_section (critical_section square_data \<lparr>x = 0, y = 2\<rparr>) \<lparr>x = 0, y = 2\<rparr>,
      workers = [1, 1], progress = Returned\<rparr>"
proof -
  let ?p = "\<lparr>x = 0, y = 2\<rparr>"
  let ?s0 = "\<lparr>data = square_data, workers = [], progress = Not_created\<rparr>"
  let ?s1 = "\<lparr>data = square_data, workers = [0], progress = Not_created\<rparr>"
  let ?s2 = "\<lparr>data = square_data, workers = [0, 0], progress = Not_created\<rparr>"
  let ?s3 = "\<lparr>data = square_data, workers = [0, 0], progress = Running\<rparr>"
  let ?s4 = "\<lparr>data = critical_section square_data ?p, workers = [1, 0], progress = Running\<rparr>"
  let ?s5 = "\<lparr>data = critical_section (critical_section square_data ?p) ?p,
              workers = [1, 1], progress = Running\<rparr>"
  let ?s6 = "\<lparr>data = critical_section (critical_section square_data ?p) ?p,
              workers = [1, 1], progress = Returned\<rparr>"
  have t: "total_points square_data = 1" "points_checked square_data = 0"
    by (simp_all add: square_data_def)
  have r0: "run 2147483647 2 ?s0 [] ?s0"
    by (rule run_nil)
  have "step 2147483647 2 ?s0 (Create_worker 0) ?s1"
    by (rule step.create_worker) simp_all
  from run_step[OF r0 this]
  have r1: "run 2147483647 2 ?s0 [Create_worker 0] ?s1" by simp
  have "step 2147483647 2 ?s1 (Create_worker 1) ?s2"
    by (rule step.create_worker) simp_all
  from run_step[OF r1 this]
  have r2: "run 2147483647 2 ?s0 [Create_worker 0, Create_worker 1] ?s2" by simp
  have "step 2147483647 2 ?s2 Create_progress ?s3"
    by (rule step.create_progress) simp_all
  from run_step[OF r2 this]
  have r3: "run 2147483647 2 ?s0 [Create_worker 0, Create_worker 1, Create_progress] ?s3" by simp
  have "step 2147483647 2 ?s3 (Sample 0 ?p) ?s4"
    by (rule sample_step) (simp_all add: t)
  from run_step[OF r3 this]
  have r4: "run 2147483647 2 ?s0
      [Create_worker 0, Create_worker 1, Create_progress, Sample 0 ?p] ?s4" by simp
  have "step 2147483647 2 ?s4 (Sample 1 ?p) ?s5"
    by (rule sample_step) (simp_all add: t)
  from run_step[OF r4 this]
  have r5: "run 2147483647 2 ?s0
      [Create_worker 0, Create_worker 1, Create_progress, Sample 0 ?p, Sample 1 ?p] ?s5" by simp
  have "step 2147483647 2 ?s5 (Progress 200) ?s6"
    by (rule step.progress_bar[where checked = 2]) (simp_all add: t)
  from run_step[OF r5 this] show ?thesis by simp
qed

lemma one_worker_run:
  "run 2147483647 1 \<lparr>data = square_data, workers = [], progress = Not_created\<rparr>
     [Create_worker 0, Create_progress, Sample 0 \<lparr>x = 0, y = 2\<rparr>, Progress 100]
     \<lparr>data = critical_section square_data \<lparr>x = 0, y = 2\<rparr>,
      workers = [1], progress = Returned\<rparr>"
proof -
  let ?p = "\<lparr>x = 0, y = 2\<rparr>"
  let ?s0 = "\<lparr>data = square_data, workers = [], progress = Not_created\<rparr>"
  let ?s1 = "\<lparr>data = square_data, workers = [0], progress = Not_created\<rparr>"
  let ?s2 = "\<lparr>data = square_data, workers = [0], progress = Running\<rparr>"
  let ?s3 = "\<lparr>data = critical_section square_data ?p, workers = [1], progress = Running\<rparr>"
  let ?s4 = "\<lparr>data = critical_section square_data ?p, workers = [1], progress = Returned\<rparr>"
  have t: "total_points square_data = 1" "points_checked square_data = 0"
    by (simp_all add: square_data_def)
  have r0: "run 2147483647 1 ?s0 [] ?s0"
    by (rule run_nil)
  have "step 2147483647 1 ?s0 (Create_worker 0) ?s1"
    by (rule step.create_worker) simp_all
  from run_step[OF r0 this]
  have r1: "run 2147483647 1 ?s0 [Create_worker 0] ?s1" by simp
  have "step 2147483647 1 ?s1 Create_progress ?s2"
    by (rule step.create_progress) simp_all
  from run_step[OF r1 this]
  have r2: "run 2147483647 1 ?s0 [Create_worker 0, Create_progress] ?s2" by simp
  have "step 2147483647 1 ?s2 (Sample 0 ?p) ?s3"
    by (rule sample_step) (simp_all add: t)
  from run_step[OF r2 this]
  have r3: "run 2147483647 1 ?s0 [Create_worker 0, Create_progress, Sample 0 ?p] ?s3" by simp
  have "step 2147483647 1 ?s3 (Progress 100) ?s4"
    by (rule step.progress_bar[where checked = 1]) (simp_all add: t)
  from run_step[OF r3 this] show ?thesis by simp
qed

lemma two_workers_joined:
  "joined 2 \<lparr>data = critical_section (critical_section square_data \<lparr>x = 0, y = 2\<rparr>) \<lparr>x = 0, y = 2\<rparr>,
      workers = [1, 1], progress = Returned\<rparr>"
  by (simp add: joined_def square_data_def)

lemma one_worker_joined:
  "joined 1 \<lparr>data = critical_section square_data \<lparr>x = 0, y = 2\<rparr>,
      workers = [1], progress = Returned\<rparr>"
  by (simp add: joined_def square_data_def)
lemma one_worker_main:
  "main 2147483647 (square_run 1 1)
     (EXIT_SUCCESS,
      [Create_worker 0, Create_progress, Sample 0 \<lparr>x = 0, y = 2\<rparr>, Progress 100,
       Stdout_area (estimated_area (critical_section square_data \<lparr>x = 0, y = 2\<rparr>) 1)])"
proof -
  have nt: "num_threads (square_run 1 1) = 1" "num_pontos_aleatorios (square_run 1 1) = 1"
    by (simp_all add: square_run_def)
  show ?thesis
    using main.success[OF square_setup(2), unfolded nt, OF one_worker_run one_worker_joined]
    by simp
qed

subsection \<open>The number of samples\<close>

text \<open>
  C1.  The specification has the \<open>total_points\<close> samples partitioned among the workers,
  so that \<open>points_checked\<close> ends at \<open>total_points\<close>.  In the code every worker runs
  \<open>points_per_thread = data->total_points\<close> iterations of its own: when the joins of
  \<open>main\<close> have returned, \<open>points_checked\<close> is \<open>num_threads * num_pontos_aleatorios\<close>.
\<close>

theorem joined_checked_is_threads_times_points:
  assumes "main_setup args = Inr d"
    and "run RAND_MAX (num_threads args) \<lparr>data = d, workers = [], progress = Not_created\<rparr> es s"
    and "joined (num_threads args) s"
  shows "points_checked (data s) = num_threads args * num_pontos_aleatorios args"
proof -
  from assms(1) have d: "points_inside d = 0" "points_checked d = 0"
    "total_points d = num_pontos_aleatorios args" "0 < num_threads args"
    "0 \<le> total_points d"
    using main_setup_Inr[OF assms(1)] by auto
  have "consistent s"
    using run_consistent[OF assms(2)] initial_consistent[of d] d by simp
  moreover have "total_points (data s) = num_pontos_aleatorios args"
    using run_total_points[OF assms(2)] d by simp
  ultimately show ?thesis
    using joined_checked[OF _ assms(3)] d by simp
qed

text \<open>
  Two workers and one point on the unit square: after the joins \<open>points_checked\<close> is 2
  and \<open>total_points\<close> is 1.
\<close>

theorem joined_checked_is_threads_times_points_witness:
  "points_checked (critical_section (critical_section square_data \<lparr>x = 0, y = 2\<rparr>) \<lparr>x = 0, y = 2\<rparr>)
     = 2 * 1 \<and>
   total_points (critical_section (critical_section square_data \<lparr>x = 0, y = 2\<rparr>) \<lparr>x = 0, y = 2\<rparr>)
     = 1"
  using joined_checked_is_threads_times_points[of "square_run 2 1", OF square_setup(1)]
    two_workers_run two_workers_joined
  by (simp add: square_run_def square_data_def)

text \<open>
  C2.  \<open>0 \<le> points_inside \<le> points_checked\<close> and the monotonicity hold
  (\<open>run_invariant\<close>, \<open>run_monotone\<close>); \<open>points_checked \<le> total_points\<close> does not.  In
  the execution with two workers and one point the progress thread reads
  \<open>points_checked = 2\<close> and prints 200 per cent, and \<open>main\<close> then reads the same counters.
\<close>

theorem checked_exceeds_total_points:
  "run 2147483647 2 \<lparr>data = square_data, workers = [], progress = Not_created\<rparr>
     [Create_worker 0, Create_worker 1, Create_progress,
      Sample 0 \<lparr>x = 0, y = 2\<rparr>, Sample 1 \<lparr>x = 0, y = 2\<rparr>, Progress 200]
     \<lparr>data = critical_section (critical_section square_data \<lparr>x = 0, y = 2\<rparr>) \<lparr>x = 0, y = 2\<rparr>,
      workers = [1, 1], progress = Returned\<rparr> \<and>
   total_points (critical_section (critical_section square_data \<lparr>x = 0, y = 2\<rparr>) \<lparr>x = 0, y = 2\<rparr>)
     < points_checked
         (critical_section (critical_section square_data \<lparr>x = 0, y = 2\<rparr>) \<lparr>x = 0, y = 2\<rparr>)"
  using two_workers_run by (simp add: square_data_def)

subsection \<open>The estimate\<close>

text \<open>
  C8.  An execution of \<open>main\<close> that exits with \<open>EXIT_SUCCESS\<close> ends by printing
  \<open>(inside / total_points) * 4\<close>, where \<open>inside\<close> is \<open>points_inside\<close> after the joins and
  \<open>total_points\<close> is the configured number of points; the reference area is the
  constant 4.  Nothing else enters the value.
\<close>

theorem estimate_printed:
  assumes "main RAND_MAX args (status, out)" and "status = EXIT_SUCCESS"
  shows "\<exists>d es s.
           main_setup args = Inr d \<and>
           run RAND_MAX (num_threads args) \<lparr>data = d, workers = [], progress = Not_created\<rparr> es s \<and>
           joined (num_threads args) s \<and>
           total_points (data s) = num_pontos_aleatorios args \<and>
           area_of_reference = 4 \<and>
           out = es @ [Stdout_area (estimate (points_inside (data s)) (total_points (data s)) 4)]"
  using assms(1)
proof (cases rule: main.cases)
  case (failure e)
  with assms(2) show ?thesis
    by (simp add: EXIT_SUCCESS_def EXIT_FAILURE_def)
next
  case (success d es s)
  have "total_points (data s) = num_pontos_aleatorios args"
    using run_invariant[OF success(3,4)] by simp
  with success show ?thesis
    by (auto simp: estimated_area_def estimate_def area_of_reference_def)
qed
theorem estimate_printed_witness:
  "\<exists>d es s.
     main_setup (square_run 1 1) = Inr d \<and>
     run 2147483647 (num_threads (square_run 1 1))
       \<lparr>data = d, workers = [], progress = Not_created\<rparr> es s \<and>
     joined (num_threads (square_run 1 1)) s \<and>
     total_points (data s) = num_pontos_aleatorios (square_run 1 1) \<and>
     area_of_reference = 4 \<and>
     [Create_worker 0, Create_progress, Sample 0 \<lparr>x = 0, y = 2\<rparr>, Progress 100,
       Stdout_area (estimated_area (critical_section square_data \<lparr>x = 0, y = 2\<rparr>) 1)]
       = es @ [Stdout_area (estimate (points_inside (data s)) (total_points (data s)) 4)]"
  using estimate_printed[OF one_worker_main refl] .

subsection \<open>Validation\<close>

text \<open>
  C9.  If the number of points or of threads is not positive, or the file yields fewer than
  3 vertices, then \<open>main\<close> has an execution, and every execution of \<open>main\<close> exits with
  \<open>EXIT_FAILURE\<close>, which is not 0, after one message on \<open>stderr\<close> and nothing else: no
  thread is created, no point is sampled, no estimate is printed.
\<close>

theorem invalid_input_fails_fast:
  assumes "num_pontos_aleatorios args \<le> 0 \<or> num_threads args \<le> 0 \<or> length (vertices args) < 3"
  shows "(\<exists>e. main RAND_MAX args (EXIT_FAILURE, [Stderr e])) \<and>
         (\<forall>out. main RAND_MAX args out \<longrightarrow> (\<exists>e. out = (EXIT_FAILURE, [Stderr e]))) \<and>
         EXIT_FAILURE \<noteq> 0"
proof -
  from assms have "\<exists>e. main_setup args = Inl e"
    unfolding main_setup_def by auto
  then obtain e where e: "main_setup args = Inl e" ..
  then have "main RAND_MAX args (EXIT_FAILURE, [Stderr e])"
    by (rule main.failure)
  moreover have "\<exists>e. out = (EXIT_FAILURE, [Stderr e])" if "main RAND_MAX args out" for out
    using that e by (cases rule: main.cases) auto
  ultimately show ?thesis
    by (auto simp: EXIT_FAILURE_def)
qed

theorem invalid_input_fails_fast_witness:
  "(\<exists>e. main 2147483647 (square_run 0 1) (EXIT_FAILURE, [Stderr e])) \<and>
   \<not> main 2147483647 (square_run 0 1) (EXIT_SUCCESS, [Stdout_area 0]) \<and>
   num_threads (square_run 0 1) \<le> 0"
  using invalid_input_fails_fast[of "square_run 0 1" 2147483647]
  by (auto simp: square_run_def EXIT_SUCCESS_def EXIT_FAILURE_def)

subsection \<open>The sampling domain\<close>

lemma random_point_in_domain:
  assumes "0 < RAND_MAX" "0 \<le> r1" "r1 \<le> RAND_MAX" "0 \<le> r2" "r2 \<le> RAND_MAX"
  shows "0 \<le> x (random_point RAND_MAX r1 r2) \<and> x (random_point RAND_MAX r1 r2) \<le> 2 \<and>
         0 \<le> y (random_point RAND_MAX r1 r2) \<and> y (random_point RAND_MAX r1 r2) \<le> 2"
  using assms by (simp add: random_point_def divide_simps)

lemma step_sample_in_domain:
  assumes "step RAND_MAX nt s (Sample k p) s'" and "0 < RAND_MAX"
  shows "0 \<le> x p \<and> x p \<le> 2 \<and> 0 \<le> y p \<and> y p \<le> 2"
  using assms by (cases rule: step.cases) (simp add: random_point_in_domain)

lemma step_counters_change:
  assumes "step RAND_MAX nt s e s'"
  shows "data s' = data s \<or> (\<exists>k p. e = Sample k p \<and> data s' = critical_section (data s) p)"
  using assms by (cases rule: step.cases) auto

text \<open>
  C10.  Every point that a worker classifies in a run lies in the square
  \<open>[0, 2] \<times> [0, 2]\<close>; the counters change in no other step (\<open>step_counters_change\<close>).
  \<open>RAND_MAX\<close> is positive, and \<open>rand()\<close> returns a value from 0 to \<open>RAND_MAX\<close>.
\<close>

theorem samples_in_domain:
  assumes "run RAND_MAX nt s es s'" and "0 < RAND_MAX" and "Sample k p \<in> set es"
  shows "0 \<le> x p \<and> x p \<le> 2 \<and> 0 \<le> y p \<and> y p \<le> 2"
  using assms
proof (induction rule: run.induct)
  case (run_nil s)
  then show ?case by simp
next
  case (run_step s es s' e s'')
  then show ?case
    using step_sample_in_domain[of RAND_MAX nt s' k p s''] by auto
qed

theorem samples_in_domain_witness:
  "Sample 0 \<lparr>x = 0, y = 2\<rparr>
     \<in> set [Create_worker 0, Create_progress, Sample 0 \<lparr>x = 0, y = 2\<rparr>, Progress 100] \<and>
   0 \<le> x \<lparr>x = 0, y = 2\<rparr> \<and> x \<lparr>x = 0, y = 2\<rparr> \<le> 2 \<and>
   0 \<le> y \<lparr>x = 0, y = 2\<rparr> \<and> y \<lparr>x = 0, y = 2\<rparr> \<le> (2::real)"
  using samples_in_domain[OF one_worker_run, of 0 "\<lparr>x = 0, y = 2\<rparr>"]
  by simp

end
